theory Spec2Isabelle
  imports
    Complex_Main
    "HOL-Library.Log_Nat"
    "HOL-Library.Word"
    "HOL-Library.Monad_Syntax"
begin

unbundle bit_operations_syntax

section \<open>Prompt propagation for wing-cell segmentation: model of the Python sources\<close>

text \<open>
  The development embeds \<^verbatim>\<open>batch_segment.py\<close> and \<^verbatim>\<open>single_segment.py\<close>.
  Everything the scripts obtain from outside (the dialogs, the directory listing, the image
  decoder, the segmentation model, the keys and mouse clicks of the human) is an explicit
  argument; everything they do to the outside (frames shown, lines printed, calls of
  \<^verbatim>\<open>predict\<close>, files written) is recorded in the state that the functions return.
\<close>

subsection \<open>Thresholding of a raw mask\<close>

text \<open>
  \<^verbatim>\<open>binary_mask = np.where(masks[0] > 0, 255, 0).astype(np.uint8)\<close> (batch tool) and
  \<^verbatim>\<open>binary_mask = (masks[0] > 0).astype(np.uint8) * 255\<close> (single-image tool).
  A raster is a list of rows; the result has element type \<^verbatim>\<open>uint8\<close>.
\<close>

definition threshold :: "('a::{zero,ord}) list list \<Rightarrow> 8 word list list" where
  "threshold raw = map (map (\<lambda>v. word_of_int (if 0 < v then 255 else 0))) raw"

definition threshold_single :: "('a::{zero,ord}) list list \<Rightarrow> 8 word list list" where
  "threshold_single raw = map (map (\<lambda>v. (if 0 < v then 1 else 0) * 255)) raw"

subsection \<open>File names\<close>

text \<open>
  Strings are lists of 8-bit characters; \<^verbatim>\<open>str.lower\<close> is modelled on the ASCII letters,
  which is all that the extension test can observe on an ASCII file name.
\<close>

definition lower_char :: "char \<Rightarrow> char" where
  "lower_char c =
     (let n = (of_char c :: nat) in if 65 \<le> n \<and> n \<le> 90 then char_of (n + 32) else c)"

definition lower :: "string \<Rightarrow> string" where
  "lower s = map lower_char s"

definition endswith :: "string \<Rightarrow> string \<Rightarrow> bool" where
  "endswith s suf \<longleftrightarrow> length suf \<le> length s \<and> drop (length s - length suf) s = suf"

text \<open>\<^verbatim>\<open>str.endswith\<close> with a tuple of suffixes: true when any of them matches.\<close>

definition endswith_any :: "string \<Rightarrow> string list \<Rightarrow> bool" where
  "endswith_any s sufs = list_ex (endswith s) sufs"

text \<open>The suffixes of the batch filter (line 200 of \<^verbatim>\<open>batch_segment.py\<close>).\<close>

definition BATCH_EXTENSIONS :: "string list" where
  "BATCH_EXTENSIONS = [''.png'', ''.jpg'', ''.jpeg'', ''.tif'', ''.bmp'']"

text \<open>
  The patterns \<^verbatim>\<open>*.png *.jpg *.jpeg *.tif *.tiff *.bmp\<close> of the reference-image chooser
  (line 152), as the suffixes they stand for.
\<close>

definition CHOOSER_EXTENSIONS :: "string list" where
  "CHOOSER_EXTENSIONS = [''.png'', ''.jpg'', ''.jpeg'', ''.tif'', ''.tiff'', ''.bmp'']"

text \<open>
  \<^verbatim>\<open>image_files = [f for f in os.listdir(INPUT_FOLDER) if f.lower().endswith((...))]\<close>,
  applied to the listing of the folder.
\<close>

definition image_files :: "string list \<Rightarrow> string list" where
  "image_files listing = filter (\<lambda>f. endswith_any (lower f) BATCH_EXTENSIONS) listing"

subsection \<open>Double-precision arithmetic\<close>

text \<open>
  The coordinates are computed by numpy in \<^verbatim>\<open>float64\<close>. A finite double is modelled by the
  rational it denotes, and \<open>None\<close> stands for a result that is not a finite double (an
  infinity or a NaN). \<open>round_double\<close> is IEEE 754 rounding to nearest, ties to even, with 53
  significant bits, gradual underflow below \<open>2 powi (- 1022)\<close> and overflow from
  \<open>2 powi 1024\<close> on.
\<close>

definition round_half_even :: "rat \<Rightarrow> int" where
  "round_half_even m =
     (let f = \<lfloor>m\<rfloor>; d = m - of_int f
      in if d < 1 / 2 then f
         else if 1 / 2 < d then f + 1
         else if even f then f else f + 1)"

text \<open>The binary exponent of a non-zero rational: \<open>2 powi expo q \<le> \<bar>q\<bar> < 2 powi (expo q + 1)\<close>.\<close>

definition expo :: "rat \<Rightarrow> int" where
  "expo q =
     (let (a, b) = quotient_of \<bar>q\<bar>; e0 = bitlen a - bitlen b
      in if 2 powi e0 \<le> \<bar>q\<bar> then e0 else e0 - 1)"

definition round_double :: "rat \<Rightarrow> rat option" where
  "round_double q =
     (if q = 0 then Some 0
      else let e = max (expo q) (- 1022);
               ulp = 2 powi (e - 52);
               r = of_int (round_half_even (q / ulp)) * ulp
           in if \<bar>r\<bar> < 2 powi 1024 then Some r else None)"

type_synonym float64 = "rat option"

text \<open>Conversion of a Python integer to \<^verbatim>\<open>float64\<close>, as \<^verbatim>\<open>np.array(..., dtype=float)\<close> does.\<close>

definition float_of_int :: "int \<Rightarrow> float64" where
  "float_of_int n = round_double (of_int n)"

text \<open>
  Division and multiplication of doubles. Dividing by zero gives an infinity or a NaN, and a
  non-finite operand gives a non-finite result for the finite non-zero-divisor uses below.
\<close>

definition fdiv :: "float64 \<Rightarrow> float64 \<Rightarrow> float64" where
  "fdiv a b = do { x \<leftarrow> a; y \<leftarrow> b; if y = 0 then None else round_double (x / y) }"

definition fmul :: "float64 \<Rightarrow> float64 \<Rightarrow> float64" where
  "fmul a b = do { x \<leftarrow> a; y \<leftarrow> b; round_double (x * y) }"

text \<open>
  \<^verbatim>\<open>.astype(int)\<close>: conversion to \<^verbatim>\<open>int64\<close> drops the fractional part (rounding toward
  zero). On a non-finite value or outside the 64-bit range numpy leaves the result
  unspecified: \<open>None\<close>.
\<close>

definition astype_int :: "float64 \<Rightarrow> int option" where
  "astype_int a =
     do { x \<leftarrow> a;
          let t = (if 0 \<le> x then \<lfloor>x\<rfloor> else \<lceil>x\<rceil>);
          if - (2 ^ 63) \<le> t \<and> t < 2 ^ 63 then Some t else None }"

subsection \<open>Coordinates\<close>

type_synonym point = "int \<times> int"

text \<open>
  Lines 124 to 126 of \<^verbatim>\<open>batch_segment.py\<close>, for one row of the array:
  \<^verbatim>\<open>relative_points = np.array(click_points, dtype=float)\<close>,
  \<^verbatim>\<open>relative_points[:, 0] /= w\<close>, \<^verbatim>\<open>relative_points[:, 1] /= h\<close>.
\<close>

definition to_fractional :: "point \<Rightarrow> int \<Rightarrow> int \<Rightarrow> float64 \<times> float64" where
  "to_fractional p w h =
     (fdiv (float_of_int (fst p)) (float_of_int w), fdiv (float_of_int (snd p)) (float_of_int h))"

text \<open>
  Line 230, for one row: \<^verbatim>\<open>absolute_points = (relative_points * [w, h]).astype(int)\<close>.
\<close>

definition to_absolute :: "float64 \<times> float64 \<Rightarrow> int \<Rightarrow> int \<Rightarrow> int option \<times> int option" where
  "to_absolute f w h =
     (astype_int (fmul (fst f) (float_of_int w)), astype_int (fmul (snd f) (float_of_int h)))"

text \<open>
  The specification's wording of the same step, for comparison with \<open>to_absolute\<close>: multiply
  by the target dimension, round to the nearest integer, clamp to \<open>[0, dimension - 1]\<close>.
\<close>

definition clamp :: "int \<Rightarrow> int \<Rightarrow> int \<Rightarrow> int" where
  "clamp lo hi v = max lo (min hi v)"

definition to_absolute_spec :: "rat \<times> rat \<Rightarrow> int \<Rightarrow> int \<Rightarrow> int \<times> int" where
  "to_absolute_spec f w h =
     (clamp 0 (w - 1) (round (fst f * of_int w)), clamp 0 (h - 1) (round (snd f * of_int h)))"

subsection \<open>What the scripts show, print and raise\<close>

text \<open>
  A raw mask is a raster of integers (the model's indicator values). The window content is
  the base image with the circles drawn so far, with or without the red overlay of a mask;
  \<open>Green\<close> and \<open>Red\<close> are the BGR colours \<^verbatim>\<open>(0, 255, 0)\<close> and \<^verbatim>\<open>(0, 0, 255)\<close> of the
  circles. Printed lines are recorded by what they report, not by their text.
\<close>

type_synonym mask = "int list list"

datatype colour = Green | Red

type_synonym canvas = "(point \<times> colour) list"

datatype frame = Plain canvas | Overlay canvas mask

text \<open>
  Exceptions: \<^verbatim>\<open>ValueError\<close> of \<^verbatim>\<open>interactive_setup\<close>, \<^verbatim>\<open>IndexError\<close> of \<^verbatim>\<open>masks[0]\<close>, any
  exception raised inside the external \<^verbatim>\<open>predict\<close>, and a cast that numpy leaves unspecified.
\<close>

datatype exn = ValueError | IndexError | ModelError nat | UnspecifiedCast

datatype message =
    PleaseClickFirst | GeneratingPreview | PreviewUpdated | PointsReset
  | SelectBeforeConfirm | SelectPointsFirst | SelectionConfirmed | Quitting
  | Processing string | CouldNotLoad string | SavedTo string
  | SaveCancelled | NoSelection | ModelLoadFailed | NoImagesFound | BatchComplete

subsection \<open>The calibration session\<close>

text \<open>
  The globals \<^verbatim>\<open>click_points\<close>, \<^verbatim>\<open>click_labels\<close>, \<^verbatim>\<open>display_image\<close> and the local
  \<^verbatim>\<open>preview_mask\<close> of the loop, together with the record of what was shown, printed and
  asked of the model (each call of \<^verbatim>\<open>predict\<close> with its points and labels).
\<close>

datatype mouse_event = EVENT_LBUTTONDOWN | EVENT_RBUTTONDOWN | EVENT_OTHER

record session =
  click_points :: "point list"
  click_labels :: "int list"
  display_image :: canvas
  preview_mask :: "mask option"
  shown :: "frame list"
  printed :: "message list"
  predict_calls :: "(point list \<times> int list) list"

definition imshow :: "frame \<Rightarrow> session \<Rightarrow> session" where
  "imshow f s = s\<lparr>shown := shown s @ [f]\<rparr>"

definition print :: "message \<Rightarrow> session \<Rightarrow> session" where
  "print m s = s\<lparr>printed := printed s @ [m]\<rparr>"

text \<open>
  \<^verbatim>\<open>mouse_callback\<close> (the same in both scripts, up to the window title): a left click appends
  a positive point, a right click a negative one; each draws its circle and shows the image.
\<close>

definition mouse_callback :: "mouse_event \<Rightarrow> int \<Rightarrow> int \<Rightarrow> session \<Rightarrow> session" where
  "mouse_callback event x y s =
     (if event = EVENT_LBUTTONDOWN then
        let s1 = s\<lparr>click_points := click_points s @ [(x, y)],
                    click_labels := click_labels s @ [1],
                    display_image := display_image s @ [((x, y), Green)]\<rparr>
        in imshow (Plain (display_image s1)) s1
      else if event = EVENT_RBUTTONDOWN then
        let s1 = s\<lparr>click_points := click_points s @ [(x, y)],
                    click_labels := click_labels s @ [0],
                    display_image := display_image s @ [((x, y), Red)]\<rparr>
        in imshow (Plain (display_image s1)) s1
      else s)"

text \<open>
  One turn of the \<^verbatim>\<open>while True\<close> loop consumes a \<open>tick\<close>: the mouse events that OpenCV
  delivers while \<^verbatim>\<open>cv2.waitKey(1)\<close> runs, and the value that \<^verbatim>\<open>waitKey\<close> returns (\<open>- 1\<close> when
  no key was pressed).
\<close>

record tick =
  clicks :: "(mouse_event \<times> int \<times> int) list"
  key :: int

text \<open>The frame drawn at the top of the loop: the overlay when there is a preview mask.\<close>

definition render :: "session \<Rightarrow> frame" where
  "render s =
     (case preview_mask s of
        Some m \<Rightarrow> Overlay (display_image s) m
      | None \<Rightarrow> Plain (display_image s))"

text \<open>\<^verbatim>\<open>key = cv2.waitKey(1) & 0xFF\<close>, with the callbacks that run meanwhile.\<close>

definition wait_key :: "tick \<Rightarrow> session \<Rightarrow> session \<times> int" where
  "wait_key t s = (foldl (\<lambda>s (ev, x, y). mouse_callback ev x y s) s (clicks t), key t AND 255)"

text \<open>The session at the moment the key of tick \<open>t\<close> is examined, in a turn started in \<open>s\<close>.\<close>

definition at_key :: "tick \<Rightarrow> session \<Rightarrow> session" where
  "at_key t s = fst (wait_key t (imshow (render s) s))"

text \<open>How the loop ends: by \<^verbatim>\<open>return\<close> or \<^verbatim>\<open>break\<close> with a value, by quitting, or by an exception.\<close>

datatype 'a ending = Confirmed 'a | Quit | Raised exn

text \<open>
  The external model, already bound to an image by \<^verbatim>\<open>set_image\<close>: points and labels to the
  list of candidate masks, or an exception.
\<close>

type_synonym predictor = "point list \<Rightarrow> int list \<Rightarrow> exn + mask list"

text \<open>
  \<^verbatim>\<open>masks, _, _ = predictor.predict(point_coords=pts, point_labels=lbls, ...)\<close> followed by
  \<^verbatim>\<open>masks[0]\<close>, which raises \<^verbatim>\<open>IndexError\<close> on an empty list.
\<close>

definition call_predict :: "predictor \<Rightarrow> session \<Rightarrow> session \<times> (exn + mask)" where
  "call_predict predict s =
     (let pts = click_points s; lbls = click_labels s;
          s1 = s\<lparr>predict_calls := predict_calls s @ [(pts, lbls)]\<rparr>
      in case predict pts lbls of
           Inl e \<Rightarrow> (s1, Inl e)
         | Inr [] \<Rightarrow> (s1, Inl IndexError)
         | Inr (m # _) \<Rightarrow> (s1, Inr m))"

text \<open>
  The body of the loop of \<^verbatim>\<open>interactive_setup\<close> (lines 72 to 134 of \<^verbatim>\<open>batch_segment.py\<close>):
  SPACE is 32, \<^verbatim>\<open>ord('r')\<close> is 114, ENTER is 13, \<^verbatim>\<open>ord('q')\<close> is 113. The result is the new
  session and, when the loop is left, how.
\<close>

definition setup_iteration ::
  "predictor \<Rightarrow> int \<Rightarrow> int \<Rightarrow> session \<Rightarrow> tick
     \<Rightarrow> session \<times> ((float64 \<times> float64) list \<times> int list) ending option" where
  "setup_iteration predict w h s t =
     (let (s1, k) = wait_key t (imshow (render s) s)
      in if k = 32 then
           if length (click_points s1) = 0 then (print PleaseClickFirst s1, None)
           else (case call_predict predict (print GeneratingPreview s1) of
                   (s2, Inl e) \<Rightarrow> (s2, Some (Raised e))
                 | (s2, Inr m) \<Rightarrow> (print PreviewUpdated (s2\<lparr>preview_mask := Some m\<rparr>), None))
         else if k = 114 then
           let s2 = print PointsReset
                      (s1\<lparr>click_points := [], click_labels := [], display_image := [],
                          preview_mask := None\<rparr>)
           in (imshow (Plain (display_image s2)) s2, None)
         else if k = 13 then
           if length (click_points s1) = 0 then (print SelectBeforeConfirm s1, None)
           else (print SelectionConfirmed s1,
                 Some (Confirmed (map (\<lambda>p. to_fractional p w h) (click_points s1), click_labels s1)))
         else if k = 113 then (print Quitting s1, Some Quit)
         else (s1, None))"

text \<open>The loop itself. With no tick left it is still waiting for input: \<open>None\<close>.\<close>

fun setup_loop ::
  "predictor \<Rightarrow> int \<Rightarrow> int \<Rightarrow> session \<Rightarrow> tick list
     \<Rightarrow> session \<times> ((float64 \<times> float64) list \<times> int list) ending option" where
  "setup_loop predict w h s [] = (s, None)"
| "setup_loop predict w h s (t # ts) =
     (case setup_iteration predict w h s t of
        (s', None) \<Rightarrow> setup_loop predict w h s' ts
      | (s', Some e) \<Rightarrow> (s', Some e))"

definition new_session :: session where
  "new_session = \<lparr>click_points = [], click_labels = [], display_image = [], preview_mask = None,
     shown = [], printed = [], predict_calls = []\<rparr>"

subsection \<open>Paths\<close>

text \<open>\<^verbatim>\<open>str.rfind\<close>, and \<^verbatim>\<open>os.path.dirname\<close>, \<^verbatim>\<open>basename\<close>, \<^verbatim>\<open>join\<close>, \<^verbatim>\<open>splitext(...)[0]\<close> on POSIX paths.\<close>

definition rfind :: "char \<Rightarrow> string \<Rightarrow> int" where
  "rfind c s =
     (if c \<in> set s then int (length s) - 1 - int (length (takeWhile (\<lambda>x. x \<noteq> c) (rev s)))
      else - 1)"

definition rstrip :: "char \<Rightarrow> string \<Rightarrow> string" where
  "rstrip c s = rev (dropWhile (\<lambda>x. x = c) (rev s))"

definition dirname :: "string \<Rightarrow> string" where
  "dirname p =
     (let i = nat (rfind CHR ''/'' p + 1); head = take i p
      in if head \<noteq> [] \<and> head \<noteq> replicate (length head) CHR ''/''
         then rstrip CHR ''/'' head else head)"

definition basename :: "string \<Rightarrow> string" where
  "basename p = drop (nat (rfind CHR ''/'' p + 1)) p"

definition path_join :: "string \<Rightarrow> string \<Rightarrow> string" where
  "path_join a b =
     (if take 1 b = ''/'' then b
      else if a = [] \<or> endswith a ''/'' then a @ b
      else a @ ''/'' @ b)"

definition splitext_root :: "string \<Rightarrow> string" where
  "splitext_root p =
     (let sepIndex = rfind CHR ''/'' p; dotIndex = rfind CHR ''.'' p
      in if sepIndex < dotIndex
            \<and> list_ex (\<lambda>c. c \<noteq> CHR ''.'')
                 (take (nat (dotIndex - (sepIndex + 1))) (drop (nat (sepIndex + 1)) p))
         then take (nat dotIndex) p else p)"

subsection \<open>The single-image tool\<close>

text \<open>
  The body of the loop of \<^verbatim>\<open>process_single_image\<close> (lines 99 to 146 of
  \<^verbatim>\<open>single_segment.py\<close>). \<open>dest_folder\<close> is the answer of the save dialog, empty when it is
  cancelled; the value of \<open>Confirmed\<close> is the file written, if any.
\<close>

definition single_iteration ::
  "predictor \<Rightarrow> string \<Rightarrow> string \<Rightarrow> session \<Rightarrow> tick
     \<Rightarrow> session \<times> (string \<times> 8 word list list) option ending option" where
  "single_iteration predict image_path dest_folder s t =
     (let (s1, k) = wait_key t (imshow (render s) s)
      in if k = 32 then
           if length (click_points s1) = 0 then (s1, None)
           else (case call_predict predict s1 of
                   (s2, Inl e) \<Rightarrow> (s2, Some (Raised e))
                 | (s2, Inr m) \<Rightarrow> (s2\<lparr>preview_mask := Some m\<rparr>, None))
         else if k = 114 then
           (s1\<lparr>click_points := [], click_labels := [], display_image := [],
               preview_mask := None\<rparr>, None)
         else if k = 13 then
           if length (click_points s1) = 0 then (print SelectPointsFirst s1, None)
           else (case call_predict predict s1 of
                   (s2, Inl e) \<Rightarrow> (s2, Some (Raised e))
                 | (s2, Inr m) \<Rightarrow>
                     let binary_mask = threshold_single m
                     in if dest_folder \<noteq> [] then
                          let save_path =
                                path_join dest_folder
                                  (splitext_root (basename image_path) @ ''_mask.png'')
                          in (print (SavedTo save_path) s2,
                              Some (Confirmed (Some (save_path, binary_mask))))
                        else (print SaveCancelled s2, Some (Confirmed None)))
         else if k = 113 then (s1, Some Quit)
         else (s1, None))"

fun single_loop ::
  "predictor \<Rightarrow> string \<Rightarrow> string \<Rightarrow> session \<Rightarrow> tick list
     \<Rightarrow> session \<times> (string \<times> 8 word list list) option ending option" where
  "single_loop predict image_path dest_folder s [] = (s, None)"
| "single_loop predict image_path dest_folder s (t # ts) =
     (case single_iteration predict image_path dest_folder s t of
        (s', None) \<Rightarrow> single_loop predict image_path dest_folder s' ts
      | (s', Some e) \<Rightarrow> (s', Some e))"

subsection \<open>Batch propagation\<close>

text \<open>
  A decoded image: its width and height (\<^verbatim>\<open>image.shape[:2]\<close> is height, width) and its pixel
  content, kept abstract. The environment: the directory listing, the decoder (\<open>None\<close> when
  \<^verbatim>\<open>cv2.imread\<close> returns \<^verbatim>\<open>None\<close>), the model bound to an image, and whether loading the
  model succeeds.
\<close>

record image =
  img_width :: int
  img_height :: int
  img_data :: nat

record env =
  listdir :: "string \<Rightarrow> string list"
  imread :: "string \<Rightarrow> image option"
  sam_predict :: "image \<Rightarrow> predictor"
  model_loads :: bool

text \<open>What the batch loop has printed and written, and its calls of \<^verbatim>\<open>predict\<close>.\<close>

record batch =
  b_printed :: "message list"
  written :: "(string \<times> 8 word list list) list"
  b_calls :: "(image \<times> point list \<times> int list) list"

definition b_print :: "message \<Rightarrow> batch \<Rightarrow> batch" where
  "b_print m b = b\<lparr>b_printed := b_printed b @ [m]\<rparr>"

definition new_batch :: batch where
  "new_batch = \<lparr>b_printed = [], written = [], b_calls = []\<rparr>"

text \<open>The rows of \<^verbatim>\<open>absolute_points\<close>, when every entry of the array is specified.\<close>

fun all_defined :: "(int option \<times> int option) list \<Rightarrow> point list option" where
  "all_defined [] = Some []"
| "all_defined ((Some x, Some y) # r) = map_option ((#) (x, y)) (all_defined r)"
| "all_defined (_ # r) = None"

text \<open>
  The body of the batch loop (lines 214 to 242). An exception ends the run: \<open>Inl\<close> carries it
  together with the state reached.
\<close>

definition batch_iteration ::
  "env \<Rightarrow> string \<Rightarrow> string \<Rightarrow> (float64 \<times> float64) list \<Rightarrow> int list \<Rightarrow> batch \<Rightarrow> string
     \<Rightarrow> exn \<times> batch + batch" where
  "batch_iteration e INPUT_FOLDER OUTPUT_FOLDER relative_points prompt_labels b filename =
     (let b1 = b_print (Processing filename) b;
          image_path = path_join INPUT_FOLDER filename
      in case imread e image_path of
           None \<Rightarrow> Inr (b_print (CouldNotLoad filename) b1)
         | Some img \<Rightarrow>
             (let h = img_height img; w = img_width img
              in case all_defined (map (\<lambda>f. to_absolute f w h) relative_points) of
                   None \<Rightarrow> Inl (UnspecifiedCast, b1)
                 | Some absolute_points \<Rightarrow>
                     (let b2 = b1\<lparr>b_calls := b_calls b1 @ [(img, absolute_points, prompt_labels)]\<rparr>
                      in case sam_predict e img absolute_points prompt_labels of
                           Inl x \<Rightarrow> Inl (x, b2)
                         | Inr masks \<Rightarrow>
                             if 0 < length masks then
                               let binary_mask = threshold (hd masks);
                                   output_path =
                                     path_join OUTPUT_FOLDER (splitext_root filename @ ''_mask.png'')
                               in Inr (b_print (SavedTo output_path)
                                         (b2\<lparr>written := written b2 @ [(output_path, binary_mask)]\<rparr>))
                             else Inr b2)))"

fun batch_loop ::
  "env \<Rightarrow> string \<Rightarrow> string \<Rightarrow> (float64 \<times> float64) list \<Rightarrow> int list \<Rightarrow> batch \<Rightarrow> string list
     \<Rightarrow> exn \<times> batch + batch" where
  "batch_loop e i_dir out rel lbls b [] = Inr b"
| "batch_loop e i_dir out rel lbls b (f # fs) =
     (case batch_iteration e i_dir out rel lbls b f of
        Inl x \<Rightarrow> Inl x
      | Inr b' \<Rightarrow> batch_loop e i_dir out rel lbls b' fs)"

text \<open>
  \<^verbatim>\<open>get_setup_via_gui\<close>: the answers of the two dialogs (empty when cancelled); the input
  folder is the directory of the reference image.
\<close>

record gui =
  template_path :: string
  output_folder :: string

definition get_setup_via_gui :: "gui \<Rightarrow> (string \<times> string \<times> string) option" where
  "get_setup_via_gui g =
     (if template_path g = [] then None
      else let input_folder = dirname (template_path g)
           in if output_folder g = [] then None
              else Some (input_folder, output_folder g, template_path g))"

text \<open>\<^verbatim>\<open>interactive_setup\<close>: decode the reference image, bind the model to it, run the loop.\<close>

definition interactive_setup ::
  "env \<Rightarrow> string \<Rightarrow> tick list
     \<Rightarrow> session \<times> ((float64 \<times> float64) list \<times> int list) ending option" where
  "interactive_setup e first_image_path ticks =
     (case imread e first_image_path of
        None \<Rightarrow> (new_session, Some (Raised ValueError))
      | Some img \<Rightarrow>
          setup_loop (sam_predict e img) (img_width img) (img_height img) new_session ticks)"

text \<open>
  \<^verbatim>\<open>process_images\<close>. \<open>Returned\<close> is an early \<^verbatim>\<open>return\<close>, \<open>Blocked\<close> a session still waiting
  for input, \<open>Exited\<close> the \<^verbatim>\<open>exit()\<close> of the quit key, \<open>Uncaught\<close> an exception that nothing
  catches.
\<close>

datatype run_end = Returned message | Blocked | Exited | Uncaught exn | Complete

definition process_images :: "env \<Rightarrow> gui \<Rightarrow> tick list \<Rightarrow> run_end \<times> session \<times> batch" where
  "process_images e g ticks =
     (case get_setup_via_gui g of
        None \<Rightarrow> (Returned NoSelection, new_session, new_batch)
      | Some (INPUT_FOLDER, OUTPUT_FOLDER, TEMPLATE_PATH) \<Rightarrow>
          if \<not> model_loads e then (Returned ModelLoadFailed, new_session, new_batch)
          else let files = image_files (listdir e INPUT_FOLDER)
               in if files = [] then (Returned NoImagesFound, new_session, new_batch)
                  else (case interactive_setup e TEMPLATE_PATH ticks of
                          (s, None) \<Rightarrow> (Blocked, s, new_batch)
                        | (s, Some Quit) \<Rightarrow> (Exited, s, new_batch)
                        | (s, Some (Raised x)) \<Rightarrow> (Uncaught x, s, new_batch)
                        | (s, Some (Confirmed (relative_points, prompt_labels))) \<Rightarrow>
                            (case batch_loop e INPUT_FOLDER OUTPUT_FOLDER relative_points
                                    prompt_labels new_batch files of
                               Inl (x, b) \<Rightarrow> (Uncaught x, s, b)
                             | Inr b \<Rightarrow> (Complete, s, b_print BatchComplete b))))"

text \<open>\<^verbatim>\<open>process_single_image\<close>, with the answers of its two dialogs.\<close>

definition process_single_image ::
  "env \<Rightarrow> string \<Rightarrow> string \<Rightarrow> tick list
     \<Rightarrow> run_end \<times> session \<times> (string \<times> 8 word list list) option" where
  "process_single_image e image_path dest_folder ticks =
     (if image_path = [] then (Returned NoSelection, new_session, None)
      else if \<not> model_loads e then (Returned ModelLoadFailed, new_session, None)
      else case imread e image_path of
             None \<Rightarrow> (Returned (CouldNotLoad image_path), new_session, None)
           | Some img \<Rightarrow>
               (case single_loop (sam_predict e img) image_path dest_folder new_session ticks of
                  (s, None) \<Rightarrow> (Blocked, s, None)
                | (s, Some (Confirmed file)) \<Rightarrow> (Complete, s, file)
                | (s, Some Quit) \<Rightarrow> (Complete, s, None)
                | (s, Some (Raised x)) \<Rightarrow> (Uncaught x, s, None)))"

subsection \<open>Concrete scenarios\<close>

text \<open>
  Models that always answer with one mask or always raise, 100 by 100 images, folders with
  their images, and the prompt set of one click in the centre of the reference image.
\<close>

definition always_returns :: "mask \<Rightarrow> predictor" where
  "always_returns m pts lbls = Inr [m]"

definition always_raises :: "exn \<Rightarrow> predictor" where
  "always_raises x pts lbls = Inl x"

definition square_image :: "nat \<Rightarrow> image" where
  "square_image n = \<lparr>img_width = 100, img_height = 100, img_data = n\<rparr>"

definition previewed_session :: session where
  "previewed_session = \<lparr>click_points = [(5, 5)], click_labels = [1],
     display_image = [((5, 5), Green)], preview_mask = Some [[1]],
     shown = [], printed = [], predict_calls = [([(5, 5)], [1])]\<rparr>"

definition three_image_env :: env where
  "three_image_env =
     \<lparr>listdir = (\<lambda>d. [''a.png'', ''b.png'', ''c.png'']),
      imread = (\<lambda>p. if p = ''/in/a.png'' then Some (square_image 1)
                     else if p = ''/in/c.png'' then Some (square_image 3) else None),
      sam_predict = (\<lambda>img. if img_data img = 3 then always_returns [[0, 5]]
                             else always_returns [[1, 0]]),
      model_loads = True\<rparr>"

definition raising_env :: env where
  "raising_env =
     \<lparr>listdir = (\<lambda>d. [''a.png'', ''c.png'']),
      imread = (\<lambda>p. if p = ''/in/a.png'' then Some (square_image 1)
                     else if p = ''/in/c.png'' then Some (square_image 3) else None),
      sam_predict = (\<lambda>img. if img_data img = 1 then always_raises (ModelError 0)
                             else always_returns [[1, 0]]),
      model_loads = True\<rparr>"

definition no_candidate_env :: env where
  "no_candidate_env =
     \<lparr>listdir = (\<lambda>d. [''a.png'', ''c.png'']),
      imread = (\<lambda>p. if p = ''/in/a.png'' then Some (square_image 1)
                     else if p = ''/in/c.png'' then Some (square_image 3) else None),
      sam_predict = (\<lambda>img. if img_data img = 1 then (\<lambda>pts lbls. Inr [])
                             else always_returns [[1, 0]]),
      model_loads = True\<rparr>"

definition tiff_reference_env :: env where
  "tiff_reference_env =
     \<lparr>listdir = (\<lambda>d. if d = ''/data'' then [''a.png'', ''ref.tiff''] else []),
      imread = (\<lambda>p. if p = ''/data/ref.tiff'' then Some (square_image 0)
                     else if p = ''/data/a.png''
                          then Some \<lparr>img_width = 200, img_height = 50, img_data = 1\<rparr>
                          else None),
      sam_predict = (\<lambda>img. always_returns [[1, 0]]),
      model_loads = True\<rparr>"

definition centre_prompt :: "(float64 \<times> float64) list" where
  "centre_prompt = [(Some (1 / 2), Some (1 / 2))]"

section \<open>Properties\<close>

subsection \<open>Rounding to double precision\<close>

lemma round_half_even_error: "\<bar>of_int (round_half_even m) - m\<bar> \<le> 1 / 2"
proof -
  define f where "f = \<lfloor>m\<rfloor>"
  have "of_int f \<le> m" and "m < of_int f + 1"
    unfolding f_def by linarith+
  then show ?thesis
    unfolding round_half_even_def Let_def f_def [symmetric] by (auto simp: abs_if)
qed

lemma round_half_even_of_int: "round_half_even (of_int n) = n"
  by (simp add: round_half_even_def)

lemma round_half_even_ge_floor: "\<lfloor>m\<rfloor> \<le> round_half_even m"
  by (simp add: round_half_even_def Let_def)

lemma round_half_even_le_ceiling: "round_half_even m \<le> \<lceil>m\<rceil>"
proof (cases "m = of_int \<lfloor>m\<rfloor>")
  case True
  then have "round_half_even m = \<lfloor>m\<rfloor>"
    by (metis round_half_even_of_int)
  then show ?thesis by (simp add: floor_le_ceiling)
next
  case False
  then have "\<lceil>m\<rceil> = \<lfloor>m\<rfloor> + 1"
    by (metis ceiling_altdef)
  then show ?thesis by (simp add: round_half_even_def Let_def)
qed

lemma expo_lower: 
  assumes "q \<noteq> 0"
  shows "2 powi (expo q) \<le> \<bar>q\<bar>"
proof -
  obtain a b where ab: "quotient_of \<bar>q\<bar> = (a, b)" by force
  have b: "0 < b" using quotient_of_denom_pos [OF ab] .
  have q: "\<bar>q\<bar> = of_int a / of_int b" using quotient_of_div [OF ab] .
  have a: "0 < a"
  proof (rule ccontr)
    assume "\<not> 0 < a"
    then have "of_int a / (of_int b :: rat) \<le> 0"
      using b by (simp add: divide_le_0_iff)
    with q assms show False by simp
  qed
  have la: "1 \<le> bitlen a" and lb: "1 \<le> bitlen b"
    using a b by (simp_all add: bitlen_alt_def)
  have "2 ^ nat (bitlen a - 1) \<le> a" using bitlen_bounds [OF a] by simp
  then have num: "(2::rat) ^ nat (bitlen a - 1) \<le> of_int a"
    by (metis of_int_le_iff of_int_numeral of_int_power)
  have "b < 2 ^ nat (bitlen b)" using bitlen_bounds [OF b] by simp
  then have den: "of_int b \<le> (2::rat) ^ nat (bitlen b)"
    by (metis less_imp_le of_int_le_iff of_int_numeral of_int_power)
  have "bitlen a - bitlen b - 1 = (bitlen a - 1) - bitlen b"
    by simp
  then have "(2::rat) powi (bitlen a - bitlen b - 1) = 2 powi (bitlen a - 1) / 2 powi (bitlen b)"
    by (simp only: power_int_diff [of "2::rat", simplified])
  also have "\<dots> = 2 ^ nat (bitlen a - 1) / 2 ^ nat (bitlen b)"
    using la lb by (simp add: power_int_nonneg_exp)
  also have "\<dots> \<le> of_int a / of_int b"
    using num den a b by (intro frac_le) simp_all
  finally have low: "(2::rat) powi (bitlen a - bitlen b - 1) \<le> \<bar>q\<bar>"
    using q by simp
  show ?thesis
    using low by (simp add: expo_def ab Let_def)
qed

lemma expo_upper:
  assumes "q \<noteq> 0" and "\<bar>q\<bar> < 2 powi k"
  shows "expo q < k"
proof (rule ccontr)
  assume "\<not> expo q < k"
  then have "(2::rat) powi k \<le> 2 powi (expo q)"
    by (intro power_int_increasing) simp_all
  with expo_lower [OF assms(1)] assms(2) show False by simp
qed

lemma ulp_exponent:
  assumes "q \<noteq> 0" and "\<bar>q\<bar> < 2 powi k" and "- 1021 \<le> k"
  shows "max (expo q) (- 1022) \<le> k - 1"
  using expo_upper [OF assms(1,2)] assms(3) by simp

lemma round_double_error:
  assumes "\<bar>q\<bar> < 2 powi k" and "- 1021 \<le> k" and "k \<le> 1023"
  shows "\<exists>r. round_double q = Some r \<and> \<bar>r - q\<bar> \<le> 2 powi (k - 54)"
proof (cases "q = 0")
  case True
  then show ?thesis by (simp add: round_double_def)
next
  case False
  define e where "e = max (expo q) (- 1022)"
  define ulp :: rat where "ulp = 2 powi (e - 52)"
  define r where "r = of_int (round_half_even (q / ulp)) * ulp"
  have e: "e \<le> k - 1"
    unfolding e_def using ulp_exponent [OF False assms(1,2)] .
  have ulp_pos: "0 < ulp" by (simp add: ulp_def)
  have "r - q = (of_int (round_half_even (q / ulp)) - q / ulp) * ulp"
    using ulp_pos by (simp add: r_def algebra_simps)
  then have "\<bar>r - q\<bar> = \<bar>of_int (round_half_even (q / ulp)) - q / ulp\<bar> * ulp"
    using ulp_pos by (simp add: abs_mult)
  also have "\<dots> \<le> (1 / 2) * ulp"
    using round_half_even_error [of "q / ulp"] ulp_pos by (intro mult_right_mono) simp_all
  also have "\<dots> = 2 powi (e - 53)"
  proof -
    have "(2::rat) powi (e - 52) = 2 powi ((e - 53) + 1)" by simp
    also have "\<dots> = 2 powi (e - 53) * 2" by (simp only: power_int_add_1 [of "2::rat", simplified])
    finally show ?thesis by (simp add: ulp_def)
  qed
  also have "\<dots> \<le> 2 powi (k - 54)"
    using e by (intro power_int_increasing) simp_all
  finally have err: "\<bar>r - q\<bar> \<le> 2 powi (k - 54)" .
  have "(2::rat) powi (k - 54) \<le> 2 powi k"
    by (intro power_int_increasing) simp_all
  with err assms(1) have "\<bar>r\<bar> < 2 powi k + 2 powi k" by linarith
  also have "\<dots> = 2 powi (k + 1)"
    by (simp only: power_int_add_1 [of "2::rat", simplified])
  also have "\<dots> \<le> 2 powi 1024"
    using assms(3) by (intro power_int_increasing) simp_all
  finally have fin: "\<bar>r\<bar> < 2 powi 1024" .
  have "round_double q = Some r"
    using False fin unfolding round_double_def Let_def r_def ulp_def e_def by simp
  with err show ?thesis by blast
qed

lemma small_ulp:
  assumes "q \<noteq> 0" and "\<bar>q\<bar> < 2 ^ 53"
  shows "\<exists>n. 2 powi (max (expo q) (- 1022) - 52) = 1 / (2::rat) ^ n"
proof -
  have "\<bar>q\<bar> < 2 powi 53" using assms(2) by simp
  from ulp_exponent [OF assms(1) this] have e: "max (expo q) (- 1022) \<le> 52" by simp
  define n where "n = nat (52 - max (expo q) (- 1022))"
  have "max (expo q) (- 1022) - 52 = - int n" using e by (simp add: n_def)
  then have "(2::rat) powi (max (expo q) (- 1022) - 52) = 1 / 2 ^ n"
    by (simp add: power_int_minus_divide)
  then show ?thesis by blast
qed

lemma round_double_of_int:
  assumes "\<bar>n\<bar> < 2 ^ 53"
  shows "round_double (of_int n) = Some (of_int n)"
proof (cases "n = 0")
  case True
  then show ?thesis by (simp add: round_double_def)
next
  case False
  then have nz: "(of_int n :: rat) \<noteq> 0" by simp
  have "\<bar>of_int n :: rat\<bar> = of_int \<bar>n\<bar>" by simp
  also have "\<dots> < of_int (2 ^ 53)" using assms by (simp only: of_int_less_iff)
  finally have small: "\<bar>of_int n :: rat\<bar> < 2 ^ 53" by simp
  from small_ulp [OF nz small] obtain j
    where ulp: "2 powi (max (expo (of_int n)) (- 1022) - 52) = 1 / (2::rat) ^ j" by blast
  have "of_int n / (1 / (2::rat) ^ j) = of_int (n * 2 ^ j)" by simp
  then have "round_half_even (of_int n / (1 / (2::rat) ^ j)) = n * 2 ^ j"
    by (simp only: round_half_even_of_int)
  then have r: "of_int (round_half_even (of_int n / (1 / (2::rat) ^ j))) * (1 / (2::rat) ^ j) = of_int n"
    by simp
  have "\<bar>of_int n :: rat\<bar> < 2 powi 1024"
    using small by (rule less_trans) simp
  then show ?thesis
    using nz unfolding round_double_def Let_def ulp r by simp
qed

lemma round_double_between:
  assumes "0 \<le> q" and "q < 2 ^ 53"
  shows "\<exists>r. round_double q = Some r \<and> of_int \<lfloor>q\<rfloor> \<le> r \<and> r \<le> of_int \<lfloor>q\<rfloor> + 1"
proof (cases "q = 0")
  case True
  then show ?thesis by (simp add: round_double_def)
next
  case False
  have small: "\<bar>q\<bar> < 2 ^ 53" using assms by simp
  from small_ulp [OF False small] obtain j
    where ulp: "2 powi (max (expo q) (- 1022) - 52) = 1 / (2::rat) ^ j" by blast
  define K :: int where "K = 2 ^ j"
  have K: "0 < K" by (simp add: K_def)
  have ulpK: "1 / (2::rat) ^ j = 1 / of_int K" by (simp add: K_def)
  define m where "m = q * of_int K"
  define r where "r = of_int (round_half_even m) / (of_int K :: rat)"
  have "of_int (\<lfloor>q\<rfloor> * K) \<le> m"
    using K by (simp add: m_def mult_right_mono)
  then have "\<lfloor>q\<rfloor> * K \<le> \<lfloor>m\<rfloor>" by (simp only: le_floor_iff)
  also have "\<dots> \<le> round_half_even m" by (rule round_half_even_ge_floor)
  finally have "of_int (\<lfloor>q\<rfloor> * K) \<le> (of_int (round_half_even m) :: rat)"
    by (simp only: of_int_le_iff)
  then have lo: "of_int \<lfloor>q\<rfloor> \<le> r"
    using K by (simp add: r_def pos_le_divide_eq)
  have "q \<le> of_int (\<lfloor>q\<rfloor> + 1)" by linarith
  then have "m \<le> of_int ((\<lfloor>q\<rfloor> + 1) * K)"
    using K unfolding m_def by (simp only: of_int_mult) (intro mult_right_mono, simp_all)
  then have "\<lceil>m\<rceil> \<le> (\<lfloor>q\<rfloor> + 1) * K" by (simp only: ceiling_le_iff)
  with round_half_even_le_ceiling [of m] have "round_half_even m \<le> (\<lfloor>q\<rfloor> + 1) * K"
    by linarith
  then have "(of_int (round_half_even m) :: rat) \<le> of_int ((\<lfloor>q\<rfloor> + 1) * K)"
    by (simp only: of_int_le_iff)
  then have hi: "r \<le> of_int \<lfloor>q\<rfloor> + 1"
    using K by (simp add: r_def pos_divide_le_eq)
  have "0 \<le> \<lfloor>q\<rfloor>" using assms(1) by simp
  then have "(0::rat) \<le> of_int \<lfloor>q\<rfloor>" by (simp only: of_int_0_le_iff)
  moreover have "of_int \<lfloor>q\<rfloor> \<le> q" by simp
  ultimately have "0 \<le> r" and "r < 2 ^ 53 + 1"
    using assms lo hi by linarith+
  then have "\<bar>r\<bar> < 2 ^ 54" by simp
  then have fin: "\<bar>r\<bar> < 2 powi 1024" by (rule less_trans) simp
  have "q / (1 / of_int K) = m" by (simp add: m_def)
  then have "round_double q = Some r"
    using False fin unfolding round_double_def Let_def ulp ulpK r_def by simp
  with lo hi show ?thesis by blast
qed

lemma float_of_int_exact: "\<bar>n\<bar> < 2 ^ 31 \<Longrightarrow> float_of_int n = Some (of_int n)"
  unfolding float_of_int_def by (rule round_double_of_int) simp

lemma roundtrip_axis:
  assumes "0 \<le> x" and "x < W" and "W < 2 ^ 31"
  shows "\<exists>v. astype_int (fmul (fdiv (float_of_int x) (float_of_int W)) (float_of_int W)) = Some v
           \<and> \<bar>v - x\<bar> \<le> 1"
proof -
  have Wpos: "0 < W" using assms by simp
  have fx: "float_of_int x = Some (of_int x)" and fW: "float_of_int W = Some (of_int W)"
    using assms by (simp_all add: float_of_int_exact)
  define q :: rat where "q = of_int x / of_int W"
  have q0: "0 \<le> q" using assms Wpos by (simp add: q_def)
  have q1: "q < 1" using assms Wpos by (simp add: q_def)
  have "\<bar>q\<bar> < 2 powi 0" using q0 q1 by simp
  from round_double_error [OF this] obtain f
    where f: "round_double q = Some f" and ferr: "\<bar>f - q\<bar> \<le> 2 powi (- 54)" by auto
  define p where "p = f * of_int W"
  have Wr: "(of_int W :: rat) \<le> 2 ^ 31" and Wr0: "(0::rat) < of_int W"
    using assms(3) Wpos by (simp_all add: of_int_le_numeral_power_cancel_iff)
  have "p - of_int x = (f - q) * of_int W"
    using Wr0 by (simp add: p_def q_def algebra_simps)
  then have "\<bar>p - of_int x\<bar> = \<bar>f - q\<bar> * of_int W"
    using Wr0 by (simp add: abs_mult)
  also have "\<dots> \<le> 2 powi (- 54) * 2 ^ 31"
    using ferr Wr Wr0 by (intro mult_mono) simp_all
  also have "\<dots> = 1 / 2 ^ 23" by (simp add: power_int_minus_divide)
  finally have perr: "\<bar>p - of_int x\<bar> \<le> 1 / 2 ^ 23" .
  have xr: "(of_int x :: rat) < 2 ^ 31"
    using assms by (simp add: of_int_less_numeral_power_cancel_iff)
  have xr0: "(0::rat) \<le> of_int x" using assms(1) by simp
  have "(1::rat) / 2 ^ 23 \<le> 1" by simp
  with perr xr xr0 have "\<bar>p\<bar> < 2 ^ 31 + 1" by linarith
  then have "\<bar>p\<bar> < 2 powi 32" by simp
  from round_double_error [OF this] obtain g
    where g: "round_double p = Some g" and gerr: "\<bar>g - p\<bar> \<le> 2 powi (32 - 54)" by auto
  have "(2::rat) powi (32 - 54) = 1 / 2 ^ 22" by (simp add: power_int_minus_divide)
  with gerr have gerr': "\<bar>g - p\<bar> \<le> 1 / 2 ^ 22" by simp
  have "(1::rat) / 2 ^ 23 + 1 / 2 ^ 22 < 1" by simp
  with perr gerr' have close: "\<bar>g - of_int x\<bar> < 1" by linarith
  define t where "t = (if 0 \<le> g then \<lfloor>g\<rfloor> else \<lceil>g\<rceil>)"
  have tx: "\<bar>t - x\<bar> \<le> 1"
  proof (cases "0 \<le> g")
    case True
    have "of_int (x - 1) \<le> g" and "g < of_int (x + 1)" using close by (simp_all; linarith)+
    then have "x - 1 \<le> \<lfloor>g\<rfloor>" and "\<lfloor>g\<rfloor> < x + 1"
      by (simp_all only: le_floor_iff floor_less_iff)
    then show ?thesis using True by (simp add: t_def)
  next
    case False
    have "of_int (x - 1) < g" and "g \<le> of_int (x + 1)" using close by (simp_all; linarith)+
    then have "x - 1 < \<lceil>g\<rceil>" and "\<lceil>g\<rceil> \<le> x + 1"
      by (simp_all only: less_ceiling_iff ceiling_le_iff)
    then show ?thesis using False by (simp add: t_def)
  qed
  have "x < 2 ^ 31" using assms by simp
  with tx assms(1) have range: "- (2 ^ 63) \<le> t \<and> t < 2 ^ 63" by (simp; linarith)
  have "astype_int (fmul (fdiv (float_of_int x) (float_of_int W)) (float_of_int W)) = Some t"
    using Wpos f g range
    by (simp add: fx fW fdiv_def fmul_def astype_int_def q_def [symmetric] p_def [symmetric]
        t_def [symmetric] Let_def)
  with tx show ?thesis by blast
qed

lemma truncation_axis:
  assumes "0 \<le> f" and "f \<le> 1" and "0 < W" and "W < 2 ^ 31"
  shows "\<exists>g v. fmul (Some f) (float_of_int W) = Some g
           \<and> astype_int (fmul (Some f) (float_of_int W)) = Some v
           \<and> v = \<lfloor>g\<rfloor>
           \<and> (v = \<lfloor>f * of_int W\<rfloor>
                \<or> v = \<lfloor>f * of_int W\<rfloor> + 1 \<and> g = of_int v
                    \<and> of_int v - f * of_int W \<le> 1 / 2 ^ 23)
           \<and> 0 \<le> v \<and> v \<le> W \<and> (f = 1 \<longrightarrow> v = W)"
proof -
  have fW: "float_of_int W = Some (of_int W)"
    using assms by (simp add: float_of_int_exact)
  define p where "p = f * of_int W"
  have Wr: "(of_int W :: rat) < 2 ^ 31" and Wr0: "(0::rat) < of_int W"
    using assms by (simp_all add: of_int_less_numeral_power_cancel_iff)
  have p0: "0 \<le> p" using assms(1) Wr0 by (simp add: p_def)
  have pW: "p \<le> of_int W"
    using mult_right_mono [OF assms(2), of "of_int W"] Wr0 by (simp add: p_def)
  have "p < 2 ^ 53" using pW Wr by simp
  from round_double_between [OF p0 this] obtain g
    where g: "round_double p = Some g" and lo: "of_int \<lfloor>p\<rfloor> \<le> g" and hi: "g \<le> of_int \<lfloor>p\<rfloor> + 1"
    by auto
  have fm: "fmul (Some f) (float_of_int W) = Some g"
    using g by (simp add: fW fmul_def p_def [symmetric])
  have "\<bar>p\<bar> < 2 powi 31" using p0 pW Wr by simp
  from round_double_error [OF this] g have "\<bar>g - p\<bar> \<le> 2 powi (31 - 54)" by auto
  moreover have "(2::rat) powi (31 - 54) = 1 / 2 ^ 23" by (simp add: power_int_minus_divide)
  ultimately have err: "\<bar>g - p\<bar> \<le> 1 / 2 ^ 23" by simp
  have fl0: "0 \<le> \<lfloor>p\<rfloor>" using p0 by simp
  have flW: "\<lfloor>p\<rfloor> \<le> W" using pW by (simp add: floor_le_iff)
  have g0: "0 \<le> g" using lo fl0 by (meson of_int_0_le_iff order_trans)
  have "of_int \<lfloor>p\<rfloor> \<le> g" and "g \<le> of_int (\<lfloor>p\<rfloor> + 1)" using lo hi by simp_all
  then have v1: "\<lfloor>p\<rfloor> \<le> \<lfloor>g\<rfloor>" and v2: "\<lfloor>g\<rfloor> \<le> \<lfloor>p\<rfloor> + 1"
    by (simp_all add: le_floor_iff floor_le_iff)
  have up: "\<lfloor>g\<rfloor> = \<lfloor>p\<rfloor> + 1 \<longrightarrow> g = of_int \<lfloor>g\<rfloor> \<and> of_int \<lfloor>g\<rfloor> - p \<le> 1 / 2 ^ 23"
  proof
    assume a: "\<lfloor>g\<rfloor> = \<lfloor>p\<rfloor> + 1"
    from a have "(of_int \<lfloor>g\<rfloor> :: rat) = of_int \<lfloor>p\<rfloor> + 1" by simp
    with hi of_int_floor_le [of g] have eq: "g = of_int \<lfloor>g\<rfloor>" by linarith
    have "g - p \<le> 1 / 2 ^ 23" using err by linarith
    with eq show "g = of_int \<lfloor>g\<rfloor> \<and> of_int \<lfloor>g\<rfloor> - p \<le> 1 / 2 ^ 23" by simp
  qed
  have top: "\<lfloor>g\<rfloor> \<le> W"
  proof (cases "p = of_int W")
    case True
    then have "round_double p = Some (of_int W)"
      using assms by (simp add: round_double_of_int)
    with g have "g = of_int W" by simp
    then show ?thesis by simp
  next
    case False
    with pW have "p < of_int W" by simp
    then have "\<lfloor>p\<rfloor> < W" by (simp add: floor_less_iff)
    with v2 show ?thesis by simp
  qed
  have one: "f = 1 \<longrightarrow> \<lfloor>g\<rfloor> = W"
  proof
    assume "f = 1"
    then have "round_double p = Some (of_int W)"
      using assms by (simp add: p_def round_double_of_int)
    with g have "g = of_int W" by simp
    then show "\<lfloor>g\<rfloor> = W" by simp
  qed
  have pw: "(2::int) ^ 31 < 2 ^ 63" and nw: "- (2 ^ 63) \<le> (0::int)" by simp_all
  have "\<lfloor>g\<rfloor> < 2 ^ 63" using top assms(4) pw by linarith
  moreover have "- (2 ^ 63) \<le> \<lfloor>g\<rfloor>" using v1 fl0 nw by linarith
  ultimately have "astype_int (fmul (Some f) (float_of_int W)) = Some \<lfloor>g\<rfloor>"
    using g0 by (simp add: fm astype_int_def Let_def)
  moreover have "\<lfloor>g\<rfloor> = \<lfloor>p\<rfloor> \<or> \<lfloor>g\<rfloor> = \<lfloor>p\<rfloor> + 1" using v1 v2 by linarith
  moreover have "0 \<le> \<lfloor>g\<rfloor>" using v1 fl0 by linarith
  ultimately show ?thesis using fm top one up unfolding p_def by blast
qed

lemma round_double_dyadic:
  assumes "\<bar>n\<bar> < 2 ^ 53" and "j \<le> 1074"
  shows "round_double (of_int n / 2 ^ j) = Some (of_int n / 2 ^ j)"
proof (cases "n = 0")
  case True
  then show ?thesis by (simp add: round_double_def)
next
  case False
  define q :: rat where "q = of_int n / 2 ^ j"
  have nz: "q \<noteq> 0" using False by (simp add: q_def)
  have "\<bar>of_int n :: rat\<bar> = of_int \<bar>n\<bar>" by simp
  also have "\<dots> < of_int (2 ^ 53)" using assms(1) by (simp only: of_int_less_iff)
  finally have small: "\<bar>of_int n :: rat\<bar> < 2 ^ 53" by simp
  have "\<bar>q\<bar> = \<bar>of_int n\<bar> / 2 ^ j" by (simp add: q_def)
  also have "\<dots> < 2 ^ 53 / 2 ^ j" using small by (simp add: divide_strict_right_mono)
  also have "\<dots> = 2 powi (53 - int j)"
    by (simp add: power_int_diff)
  finally have qk: "\<bar>q\<bar> < 2 powi (53 - int j)" .
  have "- 1021 \<le> 53 - int j" using assms(2) by simp
  from ulp_exponent [OF nz qk this] have e: "max (expo q) (- 1022) \<le> 52 - int j" by simp
  define d where "d = nat (52 - int j - max (expo q) (- 1022))"
  have "max (expo q) (- 1022) - 52 = - int (j + d)" using e by (simp add: d_def)
  then have ulp: "(2::rat) powi (max (expo q) (- 1022) - 52) = 1 / 2 ^ (j + d)"
    by (simp only: power_int_minus_divide power_int_of_nat)
  have "q / (1 / 2 ^ (j + d)) = of_int (n * 2 ^ d)"
    by (simp add: q_def power_add)
  then have "round_half_even (q / (1 / 2 ^ (j + d))) = n * 2 ^ d"
    by (simp only: round_half_even_of_int)
  then have r: "of_int (round_half_even (q / (1 / 2 ^ (j + d)))) * (1 / 2 ^ (j + d)) = q"
    by (simp add: q_def power_add)
  have "(1::rat) \<le> 2 ^ j" by simp
  then have "\<bar>q\<bar> \<le> \<bar>of_int n\<bar>"
    unfolding q_def abs_divide by (simp add: divide_le_eq mult_le_cancel_left1)
  with small have "\<bar>q\<bar> < 2 ^ 53" by simp
  then have "\<bar>q\<bar> < 2 powi 1024" by (rule less_trans) simp
  then have "round_double q = Some q"
    using nz unfolding round_double_def Let_def ulp r by simp
  then show ?thesis by (simp only: q_def)
qed

lemma round_double_numeral:
  "(numeral k :: int) < 2 ^ 53 \<Longrightarrow> round_double (numeral k) = Some (numeral k)"
  using round_double_dyadic [of "numeral k" 0] by simp

lemma round_double_half: "round_double (1 / 2) = Some (1 / 2)"
  using round_double_dyadic [of 1 1] by simp

subsection \<open>Coordinate conversion\<close>

text \<open>
  Claim C2. A point inside an image of width \<open>W\<close> and height \<open>H\<close> (dimensions below
  \<open>2 ^ 31\<close>, the range of OpenCV's image sizes), converted to fractional coordinates and back
  for the same dimensions, comes back defined and at most one pixel away on each axis.
\<close>

theorem roundtrip_within_one_pixel:
  assumes "0 \<le> x" and "x < W" and "0 \<le> y" and "y < H" and "W < 2 ^ 31" and "H < 2 ^ 31"
  shows "\<exists>x' y'. to_absolute (to_fractional (x, y) W H) W H = (Some x', Some y')
           \<and> \<bar>x' - x\<bar> \<le> 1 \<and> \<bar>y' - y\<bar> \<le> 1"
  using roundtrip_axis [OF assms(1,2,5)] roundtrip_axis [OF assms(3,4,6)]
  by (auto simp: to_absolute_def to_fractional_def)

theorem roundtrip_within_one_pixel_witness:
  "\<exists>x' y'. to_absolute (to_fractional (3, 4) 10 7) 10 7 = (Some x', Some y')
      \<and> \<bar>x' - 3\<bar> \<le> 1 \<and> \<bar>y' - 4\<bar> \<le> 1"
  using roundtrip_within_one_pixel [of 3 10 4 7] by simp

text \<open>
  Claim C3, as stated, fails: the fractional point \<open>(7/8, 1)\<close> on a 10 by 10 target gives
  \<open>(8, 10)\<close>, where rounding to nearest and clamping to \<open>[0, 9]\<close> would give \<open>(9, 9)\<close>.
\<close>

theorem to_absolute_rounds_and_clamps_counterexample:
  "to_absolute (Some (7 / 8), Some 1) 10 10 = (Some 8, Some 10) \<and>
   to_absolute_spec (7 / 8, 1) 10 10 = (9, 9)"
proof -
  have "round_double (35 / 4) = Some (35 / 4)"
    using round_double_dyadic [of 35 2] by simp
  then have "to_absolute (Some (7 / 8), Some 1) 10 10 = (Some 8, Some 10)"
    by (simp add: to_absolute_def fmul_def float_of_int_def astype_int_def round_double_numeral
        floor_eq_iff)
  moreover have "to_absolute_spec (7 / 8, 1) 10 10 = (9, 9)"
    by (simp add: to_absolute_spec_def clamp_def round_def floor_eq_iff)
  ultimately show ?thesis by simp
qed

text \<open>
  Claim C3, amended. For a fractional point in the unit square and positive target
  dimensions below \<open>2 ^ 31\<close>, each coordinate is the double-precision product truncated toward
  zero, with no rounding to nearest and no clamping: it is the floor of the double product.
  It equals the floor of the exact product, except that it is one more when the double
  product has rounded up to exactly that integer, which needs the exact product to lie
  within \<open>1 / 2 ^ 23\<close> of it. It lies between 0 and the dimension, and a fractional
  coordinate of 1.0 gives the dimension itself. At \<open>(7/8, 1)\<close> on a 10 by 20 target this
  fixes the result as \<open>(8, 20)\<close>.
\<close>

theorem to_absolute_truncates:
  assumes "0 \<le> fx" and "fx \<le> 1" and "0 \<le> fy" and "fy \<le> 1"
    and "0 < W" and "W < 2 ^ 31" and "0 < H" and "H < 2 ^ 31"
  shows "\<exists>gx gy vx vy.
           fmul (Some fx) (float_of_int W) = Some gx \<and> fmul (Some fy) (float_of_int H) = Some gy
           \<and> to_absolute (Some fx, Some fy) W H = (Some vx, Some vy)
           \<and> vx = \<lfloor>gx\<rfloor> \<and> vy = \<lfloor>gy\<rfloor>
           \<and> (vx = \<lfloor>fx * of_int W\<rfloor>
                \<or> vx = \<lfloor>fx * of_int W\<rfloor> + 1 \<and> gx = of_int vx
                    \<and> of_int vx - fx * of_int W \<le> 1 / 2 ^ 23)
           \<and> (vy = \<lfloor>fy * of_int H\<rfloor>
                \<or> vy = \<lfloor>fy * of_int H\<rfloor> + 1 \<and> gy = of_int vy
                    \<and> of_int vy - fy * of_int H \<le> 1 / 2 ^ 23)
           \<and> 0 \<le> vx \<and> vx \<le> W \<and> 0 \<le> vy \<and> vy \<le> H
           \<and> (fx = 1 \<longrightarrow> vx = W) \<and> (fy = 1 \<longrightarrow> vy = H)"
proof -
  from truncation_axis [OF assms(1,2,5,6)] obtain gx vx
    where "fmul (Some fx) (float_of_int W) = Some gx"
      and "astype_int (fmul (Some fx) (float_of_int W)) = Some vx"
      and "vx = \<lfloor>gx\<rfloor>"
      and "vx = \<lfloor>fx * of_int W\<rfloor>
             \<or> vx = \<lfloor>fx * of_int W\<rfloor> + 1 \<and> gx = of_int vx
                 \<and> of_int vx - fx * of_int W \<le> 1 / 2 ^ 23"
      and "0 \<le> vx" and "vx \<le> W" and "fx = 1 \<longrightarrow> vx = W"
    by blast
  moreover from truncation_axis [OF assms(3,4,7,8)] obtain gy vy
    where "fmul (Some fy) (float_of_int H) = Some gy"
      and "astype_int (fmul (Some fy) (float_of_int H)) = Some vy"
      and "vy = \<lfloor>gy\<rfloor>"
      and "vy = \<lfloor>fy * of_int H\<rfloor>
             \<or> vy = \<lfloor>fy * of_int H\<rfloor> + 1 \<and> gy = of_int vy
                 \<and> of_int vy - fy * of_int H \<le> 1 / 2 ^ 23"
      and "0 \<le> vy" and "vy \<le> H" and "fy = 1 \<longrightarrow> vy = H"
    by blast
  ultimately show ?thesis
    unfolding to_absolute_def fst_conv snd_conv by blast
qed

theorem to_absolute_truncates_witness:
  "to_absolute (Some (7 / 8), Some 1) 10 20 = (Some 8, Some 20)"
proof -
  have h: "0 \<le> (7 / 8 :: rat)" "(7 / 8 :: rat) \<le> 1" "0 \<le> (1::rat)" "(1::rat) \<le> 1"
    "0 < (10::int)" "(10::int) < 2 ^ 31" "0 < (20::int)" "(20::int) < 2 ^ 31"
    by simp_all
  from to_absolute_truncates [OF h] obtain gx vx vy
    where t: "to_absolute (Some (7 / 8), Some 1) 10 20 = (Some vx, Some vy)"
      and x: "vx = \<lfloor>7 / 8 * rat_of_int 10\<rfloor>
                \<or> vx = \<lfloor>7 / 8 * rat_of_int 10\<rfloor> + 1 \<and> gx = of_int vx
                    \<and> of_int vx - 7 / 8 * rat_of_int 10 \<le> 1 / 2 ^ 23"
      and y: "(1::rat) = 1 \<longrightarrow> vy = 20"
    by blast
  have fl: "\<lfloor>7 / 8 * rat_of_int 10\<rfloor> = 8" by (simp add: floor_eq_iff)
  have "vx = 8"
  proof (rule ccontr)
    assume "vx \<noteq> 8"
    with x fl have "vx = 9" and "rat_of_int vx - 7 / 8 * rat_of_int 10 \<le> 1 / 2 ^ 23" by auto
    then show False by simp
  qed
  with t y show ?thesis by simp
qed

subsection \<open>The calibration session\<close>

lemma mouse_callback_keeps:
  "preview_mask (mouse_callback ev x y s) = preview_mask s"
  "predict_calls (mouse_callback ev x y s) = predict_calls s"
  "printed (mouse_callback ev x y s) = printed s"
  by (simp_all add: mouse_callback_def imshow_def Let_def)

lemma clicks_keep:
  "preview_mask (foldl (\<lambda>s (ev, x, y). mouse_callback ev x y s) s cs) = preview_mask s
   \<and> predict_calls (foldl (\<lambda>s (ev, x, y). mouse_callback ev x y s) s cs) = predict_calls s
   \<and> printed (foldl (\<lambda>s (ev, x, y). mouse_callback ev x y s) s cs) = printed s"
  by (induction cs arbitrary: s) (auto simp: mouse_callback_keeps)

lemma mouse_callback_shown: "\<exists>fs. shown (mouse_callback ev x y s) = shown s @ fs"
  by (simp add: mouse_callback_def imshow_def Let_def)

lemma clicks_shown:
  "\<exists>fs. shown (foldl (\<lambda>s (ev, x, y). mouse_callback ev x y s) s cs) = shown s @ fs"
proof (induction cs arbitrary: s)
  case Nil
  then show ?case by simp
next
  case (Cons c cs)
  obtain ev x y where c: "c = (ev, x, y)" by (cases c) auto
  from mouse_callback_shown obtain fs1 where 1: "shown (mouse_callback ev x y s) = shown s @ fs1"
    by blast
  from Cons.IH obtain fs2 where
    "shown (foldl (\<lambda>s (ev, x, y). mouse_callback ev x y s) (mouse_callback ev x y s) cs)
       = shown (mouse_callback ev x y s) @ fs2"
    by blast
  with 1 c show ?case by simp
qed

lemma wait_key_keeps:
  "preview_mask (fst (wait_key t s)) = preview_mask s"
  "predict_calls (fst (wait_key t s)) = predict_calls s"
  "printed (fst (wait_key t s)) = printed s"
  "snd (wait_key t s) = key t AND 255"
  by (simp_all add: wait_key_def clicks_keep)

lemma wait_key_shown: "\<exists>fs. shown (fst (wait_key t s)) = shown s @ fs"
  by (simp add: wait_key_def clicks_shown)

lemma call_predict_keeps:
  "preview_mask (fst (call_predict P s)) = preview_mask s"
  "shown (fst (call_predict P s)) = shown s"
  "predict_calls (fst (call_predict P s)) = predict_calls s @ [(click_points s, click_labels s)]"
  by (simp_all add: call_predict_def Let_def split: sum.splits list.splits)

lemma print_keeps [simp]:
  "preview_mask (print m s) = preview_mask s"
  "predict_calls (print m s) = predict_calls s"
  "shown (print m s) = shown s"
  "click_points (print m s) = click_points s"
  "click_labels (print m s) = click_labels s"
  by (simp_all add: print_def)

lemma imshow_keeps [simp]:
  "preview_mask (imshow f s) = preview_mask s"
  "predict_calls (imshow f s) = predict_calls s"
  "printed (imshow f s) = printed s"
  "click_points (imshow f s) = click_points s"
  "click_labels (imshow f s) = click_labels s"
  "shown (imshow f s) = shown s @ [f]"
  by (simp_all add: imshow_def)

lemma setup_iteration_preview:
  assumes "key t AND 255 \<noteq> 32" and "key t AND 255 \<noteq> 114"
  shows "preview_mask (fst (setup_iteration P w h s t)) = preview_mask s"
proof -
  obtain s1 k where wk: "wait_key t (imshow (render s) s) = (s1, k)" by force
  have k: "k = key t AND 255" and p: "preview_mask s1 = preview_mask s"
    using wait_key_keeps(1,4) [of t "imshow (render s) s"] wk by simp_all
  show ?thesis
    using assms k p by (simp add: setup_iteration_def wk)
qed

lemma single_iteration_preview:
  assumes "key t AND 255 \<noteq> 32" and "key t AND 255 \<noteq> 114"
  shows "preview_mask (fst (single_iteration P ip d s t)) = preview_mask s"
proof -
  obtain s1 k where wk: "wait_key t (imshow (render s) s) = (s1, k)" by force
  have k: "k = key t AND 255" and p: "preview_mask s1 = preview_mask s"
    using wait_key_keeps(1,4) [of t "imshow (render s) s"] wk by simp_all
  obtain s2 r where cp: "call_predict P s1 = (s2, r)" by force
  have "preview_mask s2 = preview_mask s1"
    using call_predict_keeps(1) [of P s1] cp by simp
  then show ?thesis
    using assms k p
    by (simp add: single_iteration_def wk cp Let_def split: sum.splits)
qed

lemma setup_iteration_first_frame:
  "\<exists>fs. shown (fst (setup_iteration P w h s t)) = shown s @ render s # fs"
proof -
  obtain s1 k where wk: "wait_key t (imshow (render s) s) = (s1, k)" by force
  from wait_key_shown [of t "imshow (render s) s"] wk
  obtain fs where fs: "shown s1 = shown s @ render s # fs" by auto
  obtain s2 r where cp: "call_predict P (print GeneratingPreview s1) = (s2, r)" by force
  have s2: "shown s2 = shown s1"
    using call_predict_keeps(2) [of P "print GeneratingPreview s1"] cp by simp
  show ?thesis
    using fs s2
    by (auto simp: setup_iteration_def wk cp Let_def split: sum.splits)
qed

lemma single_iteration_first_frame:
  "\<exists>fs. shown (fst (single_iteration P ip d s t)) = shown s @ render s # fs"
proof -
  obtain s1 k where wk: "wait_key t (imshow (render s) s) = (s1, k)" by force
  from wait_key_shown [of t "imshow (render s) s"] wk
  obtain fs where fs: "shown s1 = shown s @ render s # fs" by auto
  obtain s2 r where cp: "call_predict P s1 = (s2, r)" by force
  have s2: "shown s2 = shown s1"
    using call_predict_keeps(2) [of P s1] cp by simp
  show ?thesis
    using fs s2
    by (auto simp: single_iteration_def wk cp Let_def split: sum.splits)
qed

lemmas session_defs =
  setup_iteration_def single_iteration_def wait_key_def mouse_callback_def imshow_def print_def
  render_def call_predict_def new_session_def always_returns_def always_raises_def Let_def

lemma to_fractional_centre: "to_fractional (50, 50) 100 100 = (Some (1 / 2), Some (1 / 2))"
  by (simp add: to_fractional_def fdiv_def float_of_int_def round_double_numeral round_double_half)

text \<open>
  Claim C1, as stated, fails. A click, a preview, a second click and one idle turn: the last
  frame shown is the overlay of the mask that was computed for the first point alone, and
  \<^verbatim>\<open>predict\<close> has been called only once.
\<close>

theorem stale_preview_counterexample:
  "shown (fst (setup_loop (always_returns [[1]]) 100 100 new_session
      [\<lparr>clicks = [(EVENT_LBUTTONDOWN, 5, 5)], key = 32\<rparr>,
       \<lparr>clicks = [(EVENT_LBUTTONDOWN, 7, 7)], key = - 1\<rparr>,
       \<lparr>clicks = [], key = - 1\<rparr>]))
     = [Plain [], Plain [((5, 5), Green)], Overlay [((5, 5), Green)] [[1]],
        Plain [((5, 5), Green), ((7, 7), Green)],
        Overlay [((5, 5), Green), ((7, 7), Green)] [[1]]]
   \<and> predict_calls (fst (setup_loop (always_returns [[1]]) 100 100 new_session
      [\<lparr>clicks = [(EVENT_LBUTTONDOWN, 5, 5)], key = 32\<rparr>,
       \<lparr>clicks = [(EVENT_LBUTTONDOWN, 7, 7)], key = - 1\<rparr>,
       \<lparr>clicks = [], key = - 1\<rparr>]))
     = [([(5, 5)], [1])]"
  by (simp add: session_defs)

text \<open>
  Claim C1, amended. Adding a point keeps the preview mask. A turn of the loop whose key is
  neither SPACE nor R keeps it as well, in both tools; every turn starts by drawing the
  current frame, and that frame is the overlay of the preview mask whenever there is one.
\<close>

theorem addpoint_keeps_preview:
  "preview_mask (mouse_callback ev x y s) = preview_mask s
   \<and> (key t AND 255 \<noteq> 32 \<and> key t AND 255 \<noteq> 114 \<longrightarrow>
        preview_mask (fst (setup_iteration P w h s t)) = preview_mask s
        \<and> preview_mask (fst (single_iteration P ip d s t)) = preview_mask s)
   \<and> (\<exists>fs. shown (fst (setup_iteration P w h s t)) = shown s @ render s # fs)
   \<and> (\<exists>fs. shown (fst (single_iteration P ip d s t)) = shown s @ render s # fs)
   \<and> (preview_mask s = Some m \<longrightarrow> render s = Overlay (display_image s) m)"
  using setup_iteration_preview [of t P w h s] single_iteration_preview [of t P ip d s]
    setup_iteration_first_frame [of P w h s t] single_iteration_first_frame [of P ip d s t]
  by (simp add: mouse_callback_keeps render_def)

theorem addpoint_keeps_preview_witness:
  "preview_mask (fst (setup_iteration (always_returns [[2]]) 100 100 previewed_session
       \<lparr>clicks = [(EVENT_LBUTTONDOWN, 7, 7)], key = - 1\<rparr>)) = Some [[1]]
   \<and> render previewed_session = Overlay [((5, 5), Green)] [[1]]"
  using addpoint_keeps_preview [of EVENT_LBUTTONDOWN 7 7 previewed_session
      "\<lparr>clicks = [(EVENT_LBUTTONDOWN, 7, 7)], key = - 1\<rparr>" "always_returns [[2]]" 100 100
      "''x.png''" "''/out''" "[[1]]"]
  by (simp add: previewed_session_def)

text \<open>
  Claim C4. On a session without points, SPACE and ENTER compute nothing and end nothing:
  the turn only draws the frame and, except for SPACE in the single-image tool, prints a
  request for points; points, labels, preview mask and the calls of \<^verbatim>\<open>predict\<close> are as before
  and the loop goes on.
\<close>

theorem empty_promptset_guard:
  assumes "click_points s = []" and "clicks t = []"
    and "key t AND 255 = 32 \<or> key t AND 255 = 13"
  shows "setup_iteration P w h s t =
           (s\<lparr>shown := shown s @ [render s],
               printed := printed s @
                 [if key t AND 255 = 32 then PleaseClickFirst else SelectBeforeConfirm]\<rparr>, None)
         \<and> single_iteration P ip d s t =
           (s\<lparr>shown := shown s @ [render s],
               printed := printed s @
                 (if key t AND 255 = 32 then [] else [SelectPointsFirst])\<rparr>, None)"
  using assms by (auto simp: setup_iteration_def single_iteration_def wait_key_def imshow_def print_def)

theorem empty_promptset_guard_witness:
  "setup_iteration (always_returns [[1]]) 100 100 new_session \<lparr>clicks = [], key = 13\<rparr> =
     (new_session\<lparr>shown := [Plain []], printed := [SelectBeforeConfirm]\<rparr>, None)
   \<and> single_iteration (always_returns [[1]]) ''x.png'' ''/out'' new_session \<lparr>clicks = [], key = 32\<rparr> =
     (new_session\<lparr>shown := [Plain []]\<rparr>, None)"
  using empty_promptset_guard [of new_session "\<lparr>clicks = [], key = 13\<rparr>" "always_returns [[1]]" 100 100]
    empty_promptset_guard [of new_session "\<lparr>clicks = [], key = 32\<rparr>" "always_returns [[1]]" 100 100 "''x.png''" "''/out''"]
  by (simp add: new_session_def render_def)

text \<open>
  Claim C5, as stated, fails: in the batch tool a click followed by ENTER confirms the
  selection and returns the fractional points without any call of \<^verbatim>\<open>predict\<close>.
\<close>

theorem confirm_without_predict_counterexample:
  "setup_loop (always_returns [[1]]) 100 100 new_session
      [\<lparr>clicks = [(EVENT_LBUTTONDOWN, 50, 50)], key = 13\<rparr>]
   = (\<lparr>click_points = [(50, 50)], click_labels = [1], display_image = [((50, 50), Green)],
       preview_mask = None, shown = [Plain [], Plain [((50, 50), Green)]],
       printed = [SelectionConfirmed], predict_calls = []\<rparr>,
      Some (Confirmed ([(Some (1 / 2), Some (1 / 2))], [1])))"
  by (simp add: session_defs to_fractional_centre)

text \<open>
  Claim C5, amended. A mouse event never calls \<^verbatim>\<open>predict\<close>. A turn of the batch tool's loop
  calls it exactly when the key is SPACE and there are points, once, with the current points
  and labels; a turn of the single-image tool's loop exactly when the key is SPACE or ENTER
  and there are points. So R never calls it, and ENTER calls it in the single-image tool
  only.
\<close>

theorem predict_call_sites:
  "predict_calls (mouse_callback ev x y s) = predict_calls s
   \<and> predict_calls (fst (setup_iteration P w h s t)) =
       predict_calls s @
         (if key t AND 255 = 32 \<and> click_points (at_key t s) \<noteq> []
          then [(click_points (at_key t s), click_labels (at_key t s))] else [])
   \<and> predict_calls (fst (single_iteration P ip d s t)) =
       predict_calls s @
         (if (key t AND 255 = 32 \<or> key t AND 255 = 13) \<and> click_points (at_key t s) \<noteq> []
          then [(click_points (at_key t s), click_labels (at_key t s))] else [])"
proof -
  obtain s1 k where wk: "wait_key t (imshow (render s) s) = (s1, k)" by force
  have k: "k = key t AND 255" and c: "predict_calls s1 = predict_calls s"
    using wait_key_keeps(2,4) [of t "imshow (render s) s"] wk by simp_all
  have a: "at_key t s = s1" by (simp add: at_key_def wk)
  obtain s2 r where cp: "call_predict P s1 = (s2, r)" by force
  have c2: "predict_calls s2 = predict_calls s1 @ [(click_points s1, click_labels s1)]"
    using call_predict_keeps(3) [of P s1] cp by simp
  obtain s3 r3 where cp3: "call_predict P (print GeneratingPreview s1) = (s3, r3)" by force
  have c3: "predict_calls s3 = predict_calls s1 @ [(click_points s1, click_labels s1)]"
    using call_predict_keeps(3) [of P "print GeneratingPreview s1"] cp3 by simp
  have "predict_calls (fst (setup_iteration P w h s t)) =
       predict_calls s @
         (if key t AND 255 = 32 \<and> click_points s1 \<noteq> []
          then [(click_points s1, click_labels s1)] else [])"
    using k c c3 by (simp add: setup_iteration_def wk cp3 Let_def split: sum.splits)
  moreover have "predict_calls (fst (single_iteration P ip d s t)) =
       predict_calls s @
         (if (key t AND 255 = 32 \<or> key t AND 255 = 13) \<and> click_points s1 \<noteq> []
          then [(click_points s1, click_labels s1)] else [])"
    using k c c2 by (simp add: single_iteration_def wk cp Let_def split: sum.splits)
  ultimately show ?thesis
    by (simp add: a mouse_callback_keeps)
qed

theorem predict_call_sites_witness:
  "predict_calls (fst (setup_iteration (always_returns [[2]]) 100 100 previewed_session
       \<lparr>clicks = [(EVENT_RBUTTONDOWN, 7, 7)], key = 32\<rparr>))
     = [([(5, 5)], [1]), ([(5, 5), (7, 7)], [1, 0])]
   \<and> predict_calls (fst (single_iteration (always_returns [[2]]) ''x.png'' ''/out'' previewed_session
       \<lparr>clicks = [], key = 13\<rparr>))
     = [([(5, 5)], [1]), ([(5, 5)], [1])]"
  using predict_call_sites [of EVENT_RBUTTONDOWN 7 7 previewed_session "always_returns [[2]]" 100 100
      "\<lparr>clicks = [(EVENT_RBUTTONDOWN, 7, 7)], key = 32\<rparr>"]
    predict_call_sites [of EVENT_RBUTTONDOWN 7 7 previewed_session "always_returns [[2]]" 100 100
      "\<lparr>clicks = [], key = 13\<rparr>" "''x.png''" "''/out''"]
  by (simp add: at_key_def previewed_session_def wait_key_def mouse_callback_def imshow_def
      render_def Let_def)

subsection \<open>Batch propagation\<close>

lemma batch_loop_append:
  "batch_loop e i_dir out rel lbls b (xs @ ys) =
     (case batch_loop e i_dir out rel lbls b xs of
        Inl x \<Rightarrow> Inl x
      | Inr b' \<Rightarrow> batch_loop e i_dir out rel lbls b' ys)"
  by (induction xs arbitrary: b) (auto split: sum.splits)

lemma paths_evaluated:
  "path_join ''/in'' ''a.png'' = ''/in/a.png''"
  "path_join ''/in'' ''b.png'' = ''/in/b.png''"
  "path_join ''/in'' ''c.png'' = ''/in/c.png''"
  "path_join ''/out'' (splitext_root ''a.png'' @ ''_mask.png'') = ''/out/a_mask.png''"
  "path_join ''/out'' (splitext_root ''c.png'' @ ''_mask.png'') = ''/out/c_mask.png''"
  "path_join ''/data'' ''a.png'' = ''/data/a.png''"
  "dirname ''/data/ref.tiff'' = ''/data''"
  "image_files [''a.png'', ''ref.tiff''] = [''a.png'']"
  by code_simp+

lemma to_absolute_centre:
  "to_absolute (Some (1 / 2), Some (1 / 2)) 100 100 = (Some 50, Some 50)"
  "to_absolute (Some (1 / 2), Some (1 / 2)) 200 50 = (Some 100, Some 25)"
  by (simp_all add: to_absolute_def fmul_def float_of_int_def astype_int_def round_double_numeral)

lemmas batch_defs =
  batch_iteration_def b_print_def new_batch_def square_image_def centre_prompt_def
  always_returns_def always_raises_def threshold_def Let_def

text \<open>
  Claim C7. An image that cannot be decoded, at any position of the list: the images before
  it are processed as without it, the loop prints that it could not load that file, and the
  images after it are processed in order from there. The witness is the folder of three
  images whose second is unreadable: masks are written for the first and the third.
\<close>

theorem unreadable_image_is_skipped:
  assumes "imread e (path_join i_dir f) = None"
  shows "batch_loop e i_dir out rel lbls b (pre @ f # post) =
           (case batch_loop e i_dir out rel lbls b pre of
              Inl x \<Rightarrow> Inl x
            | Inr b' \<Rightarrow>
                batch_loop e i_dir out rel lbls
                  (b_print (CouldNotLoad f) (b_print (Processing f) b')) post)"
  using assms by (simp add: batch_loop_append batch_iteration_def Let_def split: sum.splits)

theorem unreadable_image_is_skipped_witness:
  "batch_loop three_image_env ''/in'' ''/out'' centre_prompt [1] new_batch
       [''a.png'', ''b.png'', ''c.png'']
   = Inr \<lparr>b_printed = [Processing ''a.png'', SavedTo ''/out/a_mask.png'',
                        Processing ''b.png'', CouldNotLoad ''b.png'',
                        Processing ''c.png'', SavedTo ''/out/c_mask.png''],
          written = [(''/out/a_mask.png'', [[255, 0]]), (''/out/c_mask.png'', [[0, 255]])],
          b_calls = [(square_image 1, [(50, 50)], [1]), (square_image 3, [(50, 50)], [1])]\<rparr>"
  using unreadable_image_is_skipped [of three_image_env "''/in''" "''b.png''" "''/out''"
      centre_prompt "[1]" new_batch "[''a.png'']" "[''c.png'']"]
  by (simp add: three_image_env_def paths_evaluated to_absolute_centre batch_defs)

text \<open>
  Claim C8, as stated, fails. When \<^verbatim>\<open>predict\<close> raises on the first of two images the run ends
  there with the exception and the second image is never processed; when it raises during a
  preview the session ends with the exception.
\<close>

theorem predict_failure_aborts_counterexample:
  "batch_loop raising_env ''/in'' ''/out'' centre_prompt [1] new_batch [''a.png'', ''c.png'']
     = Inl (ModelError 0,
            \<lparr>b_printed = [Processing ''a.png''], written = [],
             b_calls = [(square_image 1, [(50, 50)], [1])]\<rparr>)
   \<and> setup_loop (always_raises (ModelError 0)) 100 100 new_session
        [\<lparr>clicks = [(EVENT_LBUTTONDOWN, 5, 5)], key = 32\<rparr>, \<lparr>clicks = [], key = - 1\<rparr>]
     = (\<lparr>click_points = [(5, 5)], click_labels = [1], display_image = [((5, 5), Green)],
         preview_mask = None, shown = [Plain [], Plain [((5, 5), Green)]],
         printed = [GeneratingPreview], predict_calls = [([(5, 5)], [1])]\<rparr>,
        Some (Raised (ModelError 0)))"
  by (simp add: raising_env_def paths_evaluated to_absolute_centre batch_defs session_defs)

text \<open>
  Claim C8, amended. For an image that loads, at any position of the list: if \<^verbatim>\<open>predict\<close>
  returns no candidate, nothing is written for it and the rest of the list is processed; if
  \<^verbatim>\<open>predict\<close> raises, the run ends at that image with the exception. A preview whose
  \<^verbatim>\<open>predict\<close> raises ends the session with the exception.
\<close>

theorem predict_failure_containment:
  assumes "imread e (path_join i_dir f) = Some img"
    and "all_defined (map (\<lambda>p. to_absolute p (img_width img) (img_height img)) rel) = Some pts"
  shows "(sam_predict e img pts lbls = Inr [] \<longrightarrow>
            batch_loop e i_dir out rel lbls b (pre @ f # post) =
              (case batch_loop e i_dir out rel lbls b pre of
                 Inl y \<Rightarrow> Inl y
               | Inr b' \<Rightarrow>
                   batch_loop e i_dir out rel lbls
                     ((b_print (Processing f) b')\<lparr>b_calls := b_calls b' @ [(img, pts, lbls)]\<rparr>)
                     post))
         \<and> (sam_predict e img pts lbls = Inl x \<longrightarrow>
            batch_loop e i_dir out rel lbls b (pre @ f # post) =
              (case batch_loop e i_dir out rel lbls b pre of
                 Inl y \<Rightarrow> Inl y
               | Inr b' \<Rightarrow>
                   Inl (x, (b_print (Processing f) b')\<lparr>b_calls := b_calls b' @ [(img, pts, lbls)]\<rparr>)))
         \<and> (key t AND 255 = 32 \<and> click_points (at_key t s) \<noteq> []
              \<and> P (click_points (at_key t s)) (click_labels (at_key t s)) = Inl x \<longrightarrow>
            snd (setup_iteration P w h s t) = Some (Raised x))"
proof -
  obtain s1 k where wk: "wait_key t (imshow (render s) s) = (s1, k)" by force
  have k: "k = key t AND 255"
    using wait_key_keeps(4) [of t "imshow (render s) s"] wk by simp
  have a: "at_key t s = s1" by (simp add: at_key_def wk)
  have "key t AND 255 = 32 \<and> click_points s1 \<noteq> []
          \<and> P (click_points s1) (click_labels s1) = Inl x \<longrightarrow>
        snd (setup_iteration P w h s t) = Some (Raised x)"
    using k by (simp add: setup_iteration_def wk call_predict_def print_def Let_def)
  then show ?thesis
    using assms
    by (simp add: a batch_loop_append batch_iteration_def b_print_def Let_def split: sum.splits)
qed

theorem predict_failure_containment_witness:
  "batch_loop no_candidate_env ''/in'' ''/out'' centre_prompt [1] new_batch [''a.png'', ''c.png'']
     = Inr \<lparr>b_printed = [Processing ''a.png'', Processing ''c.png'', SavedTo ''/out/c_mask.png''],
            written = [(''/out/c_mask.png'', [[255, 0]])],
            b_calls = [(square_image 1, [(50, 50)], [1]), (square_image 3, [(50, 50)], [1])]\<rparr>"
  using predict_failure_containment [of no_candidate_env "''/in''" "''a.png''" "square_image 1"
      centre_prompt "[(50, 50)]" "[1]" "''/out''" new_batch "[]" "[''c.png'']"]
  by (simp add: no_candidate_env_def paths_evaluated to_absolute_centre batch_defs)

text \<open>
  Claim C10. With \<^verbatim>\<open>/data/ref.tiff\<close> as the reference image, in a folder that also holds
  \<^verbatim>\<open>a.png\<close>, the run completes and writes a mask for \<^verbatim>\<open>a.png\<close> only: the reference image
  is not in the batch.
\<close>

theorem tiff_reference_gets_no_mask:
  "process_images tiff_reference_env
       \<lparr>template_path = ''/data/ref.tiff'', output_folder = ''/out''\<rparr>
       [\<lparr>clicks = [(EVENT_LBUTTONDOWN, 50, 50)], key = 13\<rparr>]
   = (Complete,
      \<lparr>click_points = [(50, 50)], click_labels = [1], display_image = [((50, 50), Green)],
        preview_mask = None, shown = [Plain [], Plain [((50, 50), Green)]],
        printed = [SelectionConfirmed], predict_calls = []\<rparr>,
      \<lparr>b_printed = [Processing ''a.png'', SavedTo ''/out/a_mask.png'', BatchComplete],
        written = [(''/out/a_mask.png'', [[255, 0]])],
        b_calls = [(\<lparr>img_width = 200, img_height = 50, img_data = 1\<rparr>, [(100, 25)], [1])]\<rparr>)"
  by (simp add: process_images_def get_setup_via_gui_def interactive_setup_def
      tiff_reference_env_def paths_evaluated to_fractional_centre to_absolute_centre
      batch_defs session_defs)

subsection \<open>Thresholding\<close>

lemma threshold_px_cases:
  "(word_of_int (if 0 < v then 255 else 0) :: 8 word) = (if 0 < v then 255 else 0)"
  by simp

text \<open>
  Claim C6. Thresholding keeps the dimensions of the raw raster; a pixel of the result is
  255 exactly when its raw value is strictly positive and 0 otherwise; both tools compute the
  same raster; the raw values -1, 0, 1, 5 give 0, 0, 255, 255.
\<close>

theorem threshold_foreground_iff_positive:
  "length (threshold m) = length m \<and>
   (\<forall>i < length m. length (threshold m ! i) = length (m ! i) \<and>
      (\<forall>j < length (m ! i).
         threshold m ! i ! j = (if 0 < m ! i ! j then 255 else 0))) \<and>
   threshold_single m = threshold m \<and>
   threshold [[-1, 0, 1, 5 :: int]] = [[0, 0, 255, 255]]"
  by (simp add: threshold_def threshold_single_def)

theorem threshold_foreground_iff_positive_witness:
  "threshold [[3, -2 :: int], [0, 7]] ! 1 ! 1 = 255 \<and>
   threshold [[3, -2 :: int], [0, 7]] ! 0 ! 1 = 0 \<and>
   length (threshold [[3, -2 :: int], [0, 7]] ! 1) = 2"
  using threshold_foreground_iff_positive [of "[[3, -2 :: int], [0, 7]]"]
  by (simp add: nth_Cons')

subsection \<open>The batch filter\<close>

text \<open>
  Claim C9. A file named \<^verbatim>\<open>wing.tiff\<close> is dropped by the batch filter although the
  chooser offers the \<^verbatim>\<open>.tiff\<close> ending; files ending in \<^verbatim>\<open>.png\<close> or \<^verbatim>\<open>.TIF\<close>
  next to it are kept.
\<close>

theorem image_files_drops_tiff:
  "image_files [''a.png'', ''wing.tiff'', ''b.TIF''] = [''a.png'', ''b.TIF''] \<and>
   image_files [''wing.tiff''] = [] \<and>
   ''.tiff'' \<in> set CHOOSER_EXTENSIONS \<and> ''.tiff'' \<notin> set BATCH_EXTENSIONS"
  by code_simp

end
